theory Spec2Isabelle
  imports Main "HOL-Library.Sublist"
begin

section \<open>Strings\<close>

text \<open>
  Python's \<open>sub in s\<close> on strings: \<open>sub\<close> occurs in \<open>s\<close> as a contiguous piece.
\<close>

fun str_in :: "string \<Rightarrow> string \<Rightarrow> bool" where
  "str_in sub [] = (sub = [])"
| "str_in sub (c # cs) = (prefix sub (c # cs) \<or> str_in sub cs)"

section \<open>The layout database\<close>

text \<open>
  Modelled from the spec: the placement transform of the layout database (\<open>pya.Trans\<close>),
  which is not part of the repository. A transform is a rotation by a multiple of 90
  degrees, an optional mirroring at the x axis that is applied before the rotation, and an
  integer displacement. The product \<open>a * b\<close> applies \<open>b\<close> first and \<open>a\<close> second.
\<close>

datatype rotation = R0 | R90 | R180 | R270

record trans =
  rot :: rotation
  mirror :: bool
  disp_x :: int
  disp_y :: int

fun rot_apply :: "rotation \<Rightarrow> int \<times> int \<Rightarrow> int \<times> int" where
  "rot_apply R0 (x, y) = (x, y)"
| "rot_apply R90 (x, y) = (- y, x)"
| "rot_apply R180 (x, y) = (- x, - y)"
| "rot_apply R270 (x, y) = (y, - x)"

fun rot_add :: "rotation \<Rightarrow> rotation \<Rightarrow> rotation" where
  "rot_add R0 r = r"
| "rot_add R90 R0 = R90"
| "rot_add R90 R90 = R180"
| "rot_add R90 R180 = R270"
| "rot_add R90 R270 = R0"
| "rot_add R180 R0 = R180"
| "rot_add R180 R90 = R270"
| "rot_add R180 R180 = R0"
| "rot_add R180 R270 = R90"
| "rot_add R270 R0 = R270"
| "rot_add R270 R90 = R0"
| "rot_add R270 R180 = R90"
| "rot_add R270 R270 = R180"

fun rot_neg :: "rotation \<Rightarrow> rotation" where
  "rot_neg R0 = R0"
| "rot_neg R90 = R270"
| "rot_neg R180 = R180"
| "rot_neg R270 = R90"

definition fix_apply :: "rotation \<Rightarrow> bool \<Rightarrow> int \<times> int \<Rightarrow> int \<times> int" where
  "fix_apply r m p = rot_apply r (if m then (fst p, - snd p) else p)"

definition trans_apply :: "trans \<Rightarrow> int \<times> int \<Rightarrow> int \<times> int" where
  "trans_apply t p =
     (fst (fix_apply (rot t) (mirror t) p) + disp_x t,
      snd (fix_apply (rot t) (mirror t) p) + disp_y t)"

definition trans_mul :: "trans \<Rightarrow> trans \<Rightarrow> trans" where
  "trans_mul a b =
     \<lparr> rot = rot_add (rot a) (if mirror a then rot_neg (rot b) else rot b),
       mirror = (mirror a \<noteq> mirror b),
       disp_x = disp_x a + fst (fix_apply (rot a) (mirror a) (disp_x b, disp_y b)),
       disp_y = disp_y a + snd (fix_apply (rot a) (mirror a) (disp_x b, disp_y b)) \<rparr>"

definition trans_unit :: trans where
  "trans_unit = \<lparr> rot = R0, mirror = False, disp_x = 0, disp_y = 0 \<rparr>"

definition trans_disp :: "int \<Rightarrow> int \<Rightarrow> trans" where
  "trans_disp x y = \<lparr> rot = R0, mirror = False, disp_x = x, disp_y = y \<rparr>"

text \<open>
  Modelled from the spec: boxes of the layout database (\<open>pya.Box\<close>). The centre is taken
  with integer division; the examples below only use boxes whose centre is integral.
\<close>

record box =
  left :: int
  bottom :: int
  right :: int
  top :: int

definition box_of_points :: "int \<times> int \<Rightarrow> int \<times> int \<Rightarrow> box" where
  "box_of_points p q =
     \<lparr> left = min (fst p) (fst q), bottom = min (snd p) (snd q),
       right = max (fst p) (fst q), top = max (snd p) (snd q) \<rparr>"

definition box_transformed :: "trans \<Rightarrow> box \<Rightarrow> box" where
  "box_transformed t b =
     box_of_points (trans_apply t (left b, bottom b)) (trans_apply t (right b, top b))"

definition box_hull :: "box \<Rightarrow> box \<Rightarrow> box" where
  "box_hull a b =
     \<lparr> left = min (left a) (left b), bottom = min (bottom a) (bottom b),
       right = max (right a) (right b), top = max (top a) (top b) \<rparr>"

definition box_moved :: "int \<times> int \<Rightarrow> box \<Rightarrow> box" where
  "box_moved d b =
     \<lparr> left = left b + fst d, bottom = bottom b + snd d,
       right = right b + fst d, top = top b + snd d \<rparr>"

definition box_center_y :: "box \<Rightarrow> int" where
  "box_center_y b = (bottom b + top b) div 2"

text \<open>
  A regular array places its cell on a grid of \<open>rows\<close> by \<open>cols\<close> positions; an instance
  without array data is a single placement. A cell has a name, the bounding box the
  database reports for it, and its child instances in iteration order. A layout is the
  table of its cells; an instance refers to its cell by the index in that table.
\<close>

record regular_array =
  rows :: nat
  cols :: nat
  step_row :: "int \<times> int"
  step_col :: "int \<times> int"

record inst =
  inst_cell_index :: nat
  inst_trans :: trans
  inst_array :: "regular_array option"

record cell =
  cell_name :: string
  cell_bbox :: box
  cell_insts :: "inst list"

type_synonym layout = "cell list"

definition wf_layout :: "layout \<Rightarrow> bool" where
  "wf_layout L = (\<forall>c \<in> set L. \<forall>i \<in> set (cell_insts c). inst_cell_index i < length L)"

definition array_offset :: "regular_array \<Rightarrow> nat \<Rightarrow> nat \<Rightarrow> int \<times> int" where
  "array_offset a r c =
     (int r * fst (step_row a) + int c * fst (step_col a),
      int r * snd (step_row a) + int c * snd (step_col a))"

definition inst_bbox :: "layout \<Rightarrow> inst \<Rightarrow> box" where
  "inst_bbox L i =
     (let b = box_transformed (inst_trans i) (cell_bbox (L ! inst_cell_index i)) in
      case inst_array i of
        None \<Rightarrow> b
      | Some a \<Rightarrow>
          box_hull (box_hull b (box_moved (array_offset a (rows a - 1) 0) b))
                   (box_hull (box_moved (array_offset a 0 (cols a - 1)) b)
                             (box_moved (array_offset a (rows a - 1) (cols a - 1)) b)))"

section \<open>Recursive port discovery\<close>

text \<open>
  \<open>find_port_sin_cell_and_position\<close>. The set \<open>visited_cells\<close> is shared by all recursive
  calls; it is modelled as the list of the visited cell indices, most recent first, and
  is returned with the result. The first argument bounds the depth of the recursion: the
  value \<open>None\<close> means that the bound was reached before the search returned. The result
  \<open>(None, None)\<close> of the source is \<open>None\<close>, a found port is \<open>Some (cell index, y)\<close>.
\<close>

definition is_port_sin :: "layout \<Rightarrow> inst \<Rightarrow> bool" where
  "is_port_sin L i = str_in ''port_SiN'' (cell_name (L ! inst_cell_index i))"

definition no_port_marker :: "layout \<Rightarrow> bool" where
  "no_port_marker L = (\<forall>p \<in> set L. \<forall>i \<in> set (cell_insts p). \<not> is_port_sin L i)"

fun find_port_sin_cell_and_position ::
    "nat \<Rightarrow> layout \<Rightarrow> nat \<Rightarrow> nat list \<Rightarrow> ((nat \<times> int) option \<times> nat list) option"
  and search_sub_cells ::
    "nat \<Rightarrow> layout \<Rightarrow> inst list \<Rightarrow> nat list \<Rightarrow> ((nat \<times> int) option \<times> nat list) option"
where
  "find_port_sin_cell_and_position 0 L c V = None"
| "find_port_sin_cell_and_position (Suc n) L c V =
     (if c \<in> set V then Some (None, V)
      else case find (is_port_sin L) (cell_insts (L ! c)) of
             Some i \<Rightarrow> Some (Some (inst_cell_index i, box_center_y (inst_bbox L i)), c # V)
           | None \<Rightarrow> search_sub_cells n L (cell_insts (L ! c)) (c # V))"
| "search_sub_cells n L [] V = Some (None, V)"
| "search_sub_cells n L (i # is) V =
     (case find_port_sin_cell_and_position n L (inst_cell_index i) V of
        None \<Rightarrow> None
      | Some (Some r, V') \<Rightarrow> Some (Some r, V')
      | Some (None, V') \<Rightarrow> search_sub_cells n L is V')"


text \<open>Two small layouts: a port marker nested two levels deep, and a hierarchy with a cycle.\<close>

definition mk_inst :: "nat \<Rightarrow> trans \<Rightarrow> inst" where
  "mk_inst c t = \<lparr> inst_cell_index = c, inst_trans = t, inst_array = None \<rparr>"

definition unit_box :: box where
  "unit_box = \<lparr> left = 0, bottom = - 1, right = 2, top = 1 \<rparr>"

definition nested_port_layout :: layout where
  "nested_port_layout =
     [ \<lparr> cell_name = ''design'', cell_bbox = unit_box, cell_insts = [mk_inst 1 (trans_disp 0 100)] \<rparr>,
       \<lparr> cell_name = ''block'', cell_bbox = unit_box, cell_insts = [mk_inst 2 (trans_disp 0 5)] \<rparr>,
       \<lparr> cell_name = ''port_SiN'', cell_bbox = unit_box, cell_insts = [] \<rparr> ]"

definition cyclic_layout :: layout where
  "cyclic_layout =
     [ \<lparr> cell_name = ''ring'', cell_bbox = unit_box, cell_insts = [mk_inst 1 trans_unit] \<rparr>,
       \<lparr> cell_name = ''arm'', cell_bbox = unit_box,
         cell_insts = [mk_inst 1 trans_unit, mk_inst 0 trans_unit] \<rparr> ]"


section \<open>Loading the submissions\<close>

text \<open>
  \<open>str.lower\<close>, \<open>str.split\<close> at one separator character, and the decimal digits of a
  number as the f-string prints it. A character of the model is a code point below 256;
  the ones that \<open>str.lower\<close> changes are A to Z and 0xC0 to 0xDE without 0xD7, each
  moved up by 32.
\<close>

definition upper_letters :: string where
  "upper_letters =
     ''ABCDEFGHIJKLMNOPQRSTUVWXYZ'' @
       [
          CHR 0xC0, CHR 0xC1, CHR 0xC2, CHR 0xC3, CHR 0xC4, CHR 0xC5, CHR 0xC6, CHR 0xC7,
          CHR 0xC8, CHR 0xC9, CHR 0xCA, CHR 0xCB, CHR 0xCC, CHR 0xCD, CHR 0xCE, CHR 0xCF,
          CHR 0xD0, CHR 0xD1, CHR 0xD2, CHR 0xD3, CHR 0xD4, CHR 0xD5, CHR 0xD6, CHR 0xD8,
          CHR 0xD9, CHR 0xDA, CHR 0xDB, CHR 0xDC, CHR 0xDD, CHR 0xDE]"

definition lower_letters :: string where
  "lower_letters =
     ''abcdefghijklmnopqrstuvwxyz'' @
       [
          CHR 0xE0, CHR 0xE1, CHR 0xE2, CHR 0xE3, CHR 0xE4, CHR 0xE5, CHR 0xE6, CHR 0xE7,
          CHR 0xE8, CHR 0xE9, CHR 0xEA, CHR 0xEB, CHR 0xEC, CHR 0xED, CHR 0xEE, CHR 0xEF,
          CHR 0xF0, CHR 0xF1, CHR 0xF2, CHR 0xF3, CHR 0xF4, CHR 0xF5, CHR 0xF6, CHR 0xF8,
          CHR 0xF9, CHR 0xFA, CHR 0xFB, CHR 0xFC, CHR 0xFD, CHR 0xFE]"

definition lower_char :: "char \<Rightarrow> char" where
  "lower_char c =
     (case map_of (zip upper_letters lower_letters) c of
        Some d \<Rightarrow> d
      | None \<Rightarrow> c)"

definition lower :: "string \<Rightarrow> string" where
  "lower s = map lower_char s"

fun split_on :: "char \<Rightarrow> string \<Rightarrow> string list" where
  "split_on c [] = [[]]"
| "split_on c (x # xs) =
     (if x = c then [] # split_on c xs
      else case split_on c xs of
             w # ws \<Rightarrow> (x # w) # ws
           | [] \<Rightarrow> [[x]])"

definition digit_char :: "nat \<Rightarrow> char" where
  "digit_char d = ''0123456789'' ! d"

function string_of_nat :: "nat \<Rightarrow> string" where
  "string_of_nat n =
     (if n < 10 then [digit_char n] else string_of_nat (n div 10) @ [digit_char (n mod 10)])"
  by pat_completeness auto
termination
  by (relation "measure id") auto

text \<open>\<open>parse_verification_errors\<close>: the dictionary of the six categories and the pass over the lines.\<close>

record error_counts =
  disconnected_pins :: nat
  floating_shapes :: nat
  invalid_components :: nat
  missing_pins :: nat
  pin_errors :: nat
  other_errors :: nat

definition no_errors :: error_counts where
  "no_errors = \<lparr> disconnected_pins = 0, floating_shapes = 0, invalid_components = 0,
                  missing_pins = 0, pin_errors = 0, other_errors = 0 \<rparr>"

definition count_line :: "string \<Rightarrow> error_counts \<Rightarrow> error_counts" where
  "count_line line ec =
     (let line_lower = lower line in
      if str_in ''disconnected pin'' line_lower
        then ec\<lparr> disconnected_pins := disconnected_pins ec + 1 \<rparr>
      else if str_in ''floating shape'' line_lower
        then ec\<lparr> floating_shapes := floating_shapes ec + 1 \<rparr>
      else if str_in ''invalid component'' line_lower
        then ec\<lparr> invalid_components := invalid_components ec + 1 \<rparr>
      else if str_in ''missing pin'' line_lower
        then ec\<lparr> missing_pins := missing_pins ec + 1 \<rparr>
      else if str_in ''pin'' line_lower
              \<and> (str_in ''error'' line_lower \<or> str_in ''warning'' line_lower)
        then ec\<lparr> pin_errors := pin_errors ec + 1 \<rparr>
      else if list_ex (\<lambda>keyword. str_in keyword line_lower) [''error'', ''warning'', ''fail'']
        then (if \<not> list_ex (\<lambda>known_error. str_in known_error line_lower)
                      [''disconnected'', ''floating'', ''invalid'', ''missing'']
              then ec\<lparr> other_errors := other_errors ec + 1 \<rparr>
              else ec)
      else ec)"

definition parse_verification_errors :: "string \<Rightarrow> error_counts" where
  "parse_verification_errors verification_output =
     fold count_line (split_on (CHR 0x0A) verification_output) no_errors"


text \<open>
  One submission file as the loading loop meets it: its name, the outcome of the first
  verification call (an exception, or the number of errors), the text the verbose
  verification call prints, the extent of the bounding box of the top cell, and the
  handle that \<open>get_github_username\<close> returns for the file.
\<close>

datatype check_result = CheckRaised | CheckCount nat

record submission_file =
  file_name :: string
  check :: check_result
  verbose_output :: string
  bbox_width :: int
  bbox_height :: int
  github_username :: string

text \<open>
  The values stored in \<open>error_summary\<close>: the categorised counts, the empty dictionary of a
  file without errors, and the two dictionaries of the fallback path.
\<close>

datatype error_details =
  ErrorCounts error_counts
| NoDetails
| CellTooSmall
| VerificationFailed

record load_state =
  submissions :: "(string \<times> string) list"
  username_counts :: "string \<rightharpoonup> nat"
  error_summary :: "string \<rightharpoonup> error_details"

definition load_start :: load_state where
  "load_start = \<lparr> submissions = [], username_counts = Map.empty, error_summary = Map.empty \<rparr>"

definition skip_file :: "submission_file \<Rightarrow> error_details \<Rightarrow> load_state \<Rightarrow> load_state" where
  "skip_file f d st = st\<lparr> error_summary := (error_summary st)(file_name f \<mapsto> d) \<rparr>"

definition accept_file :: "submission_file \<Rightarrow> error_details \<Rightarrow> load_state \<Rightarrow> load_state" where
  "accept_file f d st =
     (let username = github_username f in
      case username_counts st username of
        Some k \<Rightarrow>
          \<lparr> submissions = submissions st @ [(file_name f, username @ string_of_nat (k + 1))],
            username_counts = (username_counts st)(username \<mapsto> k + 1),
            error_summary = (error_summary st)(file_name f \<mapsto> d) \<rparr>
      | None \<Rightarrow>
          \<lparr> submissions = submissions st @ [(file_name f, username)],
            username_counts = (username_counts st)(username \<mapsto> 1),
            error_summary = (error_summary st)(file_name f \<mapsto> d) \<rparr>)"

definition load_file :: "submission_file \<Rightarrow> load_state \<Rightarrow> load_state" where
  "load_file f st =
     (case check f of
        CheckCount num_errors \<Rightarrow>
          if num_errors > 0 then
            (let error_details = parse_verification_errors (verbose_output f) in
             if disconnected_pins error_details > 0
             then skip_file f (ErrorCounts error_details) st
             else accept_file f (ErrorCounts error_details) st)
          else accept_file f NoDetails st
      | CheckRaised \<Rightarrow>
          if bbox_width f < 1000 \<or> bbox_height f < 1000
          then skip_file f CellTooSmall st
          else accept_file f VerificationFailed st)"

text \<open>The files are given in the order in which the loop processes them (sorted by path).\<close>

definition load_submission_designs :: "submission_file list \<Rightarrow> load_state" where
  "load_submission_designs files = fold load_file files load_start"

text \<open>
  The verbose report of a file is the text captured from the second verification call.
  The loop makes that call only when the first call has counted at least one error; a
  file whose first call counts none, or raises, has no verbose report.
\<close>

definition verbose_report :: "submission_file \<Rightarrow> string option" where
  "verbose_report f =
     (case check f of
        CheckCount num_errors \<Rightarrow> if num_errors > 0 then Some (verbose_output f) else None
      | CheckRaised \<Rightarrow> None)"

text \<open>
  A report has a line that contains "disconnected pin" when its case is ignored. The
  files below serve as concrete inputs.
\<close>

definition has_disconnected_pin_line :: "string \<Rightarrow> bool" where
  "has_disconnected_pin_line report =
     (\<exists>line \<in> set (split_on (CHR 0x0A) report). str_in ''disconnected pin'' (lower line))"

definition clean_file :: "string \<Rightarrow> string \<Rightarrow> submission_file" where
  "clean_file name user =
     \<lparr> file_name = name, check = CheckCount 0, verbose_output = [],
       bbox_width = 5000, bbox_height = 5000, github_username = user \<rparr>"

definition bob_files :: "submission_file list" where
  "bob_files = [clean_file ''a.gds'' ''bob'', clean_file ''b.gds'' ''bob'', clean_file ''c.gds'' ''bob2'']"

definition broken_file :: submission_file where
  "broken_file =
     \<lparr> file_name = ''x.gds'', check = CheckCount 2, verbose_output = ''Error: Disconnected Pin'',
       bbox_width = 5000, bbox_height = 5000, github_username = ''dave'' \<rparr>"


section \<open>Resolving the GitHub handle\<close>

text \<open>
  \<open>get_github_username_from_api\<close>. The answers of the search endpoint, as the function
  tells them apart: status 200 with a first user (whose login may be missing), status 200
  with no user, status 403, any other status, and an exception raised inside the \<open>try\<close>
  block (by the request or by reading its answer). The world is the sequence of the
  answers to the successive requests. The state holds the lookup cache, the addresses
  requested so far and the durations slept so far.

  The source retries by calling itself, inside its own \<open>try\<close> block, with no bound of its
  own. What bounds the nesting is the recursion limit of the interpreter: the first
  argument is the number of nested calls that can still send their request. In the call
  where none is left, the request raises \<open>RecursionError\<close>, the \<open>except Exception\<close> clause
  of that call catches it, and the call returns \<open>None\<close> without caching anything; every
  enclosing call returns that value. The cache is read before the \<open>try\<close> block.
\<close>

datatype response =
  Found "string option"
| NotFound
| RateLimited
| OtherStatus
| RequestFailed

record api_state =
  cache :: "string \<rightharpoonup> string option"
  request_log :: "string list"
  sleep_log :: "nat list"

definition api_start :: api_state where
  "api_start = \<lparr> cache = Map.empty, request_log = [], sleep_log = [] \<rparr>"

definition requested :: "string \<Rightarrow> api_state \<Rightarrow> api_state" where
  "requested email s = s\<lparr> request_log := request_log s @ [email] \<rparr>"

definition cached :: "string \<Rightarrow> string option \<Rightarrow> api_state \<Rightarrow> api_state" where
  "cached email r s = s\<lparr> cache := (cache s)(email \<mapsto> r) \<rparr>"

definition slept :: "nat \<Rightarrow> api_state \<Rightarrow> api_state" where
  "slept seconds s = s\<lparr> sleep_log := sleep_log s @ [seconds] \<rparr>"

fun get_github_username_from_api ::
    "nat \<Rightarrow> (nat \<Rightarrow> response) \<Rightarrow> string \<Rightarrow> api_state \<Rightarrow> string option \<times> api_state" where
  "get_github_username_from_api 0 api email s =
     (case cache s email of
        Some r \<Rightarrow> (r, s)
      | None \<Rightarrow> (None, s))"
| "get_github_username_from_api (Suc limit) api email s =
     (case cache s email of
        Some r \<Rightarrow> (r, s)
      | None \<Rightarrow>
          (case api (length (request_log s)) of
             Found username \<Rightarrow> (username, cached email username (requested email s))
           | RateLimited \<Rightarrow> get_github_username_from_api limit api email (slept 60 (requested email s))
           | NotFound \<Rightarrow> (None, cached email None (requested email s))
           | OtherStatus \<Rightarrow> (None, cached email None (requested email s))
           | RequestFailed \<Rightarrow> (None, requested email s)))"


text \<open>
  \<open>get_github_username\<close>. The two git queries either raise (a timeout, a missing
  executable) or complete with a return code and their standard output. The fork list is
  \<open>None\<close> when \<open>get_repository_forks\<close> returns the empty dictionary and the list of the
  fork owners, in iteration order, otherwise.
\<close>

datatype proc_result = ProcRaised | Completed int string

record environment =
  git_email :: "string \<Rightarrow> proc_result"
  git_author :: "string \<Rightarrow> proc_result"
  fork_usernames :: "string list option"
  api_responses :: "nat \<Rightarrow> response"

text \<open>
  \<open>str.strip()\<close> removes the white space of Python at both ends. A character of the model
  is a code point below 256; the white space among these is the space, 0x09 to 0x0D,
  0x1C to 0x1F, 0x85 and 0xA0.
\<close>

definition is_space :: "char \<Rightarrow> bool" where
  "is_space c =
     (c \<in> set [CHR '' '', CHR 0x09, CHR 0x0A, CHR 0x0B, CHR 0x0C, CHR 0x0D,
               CHR 0x1C, CHR 0x1D, CHR 0x1E, CHR 0x1F, CHR 0x85, CHR 0xA0])"

definition strip :: "string \<Rightarrow> string" where
  "strip s = rev (dropWhile is_space (rev (dropWhile is_space s)))"

definition before_first :: "char \<Rightarrow> string \<Rightarrow> string" where
  "before_first c s = takeWhile (\<lambda>x. x \<noteq> c) s"

definition second_part :: "char \<Rightarrow> string \<Rightarrow> string" where
  "second_part c s = before_first c (drop 1 (dropWhile (\<lambda>x. x \<noteq> c) s))"

definition is_noreply :: "string \<Rightarrow> bool" where
  "is_noreply email =
     (CHR ''@'' \<in> set email
      \<and> CHR ''+'' \<in> set (before_first (CHR ''@'') email)
      \<and> str_in ''@users.noreply.github.com'' email)"

datatype fork_outcome = ForkRaised | ForkMatch string | NoForkMatch

definition match_fork :: "environment \<Rightarrow> string \<Rightarrow> fork_outcome" where
  "match_fork env file_path =
     (case fork_usernames env of
        None \<Rightarrow> NoForkMatch
      | Some forks \<Rightarrow>
          (case git_author env file_path of
             ProcRaised \<Rightarrow> ForkRaised
           | Completed rc out \<Rightarrow>
               if rc = 0 \<and> strip out \<noteq> [] then
                 (let author_name = lower (strip out) in
                  case find (\<lambda>fork_username. str_in author_name (lower fork_username)
                                             \<or> str_in (lower fork_username) author_name) forks of
                    Some fork_username \<Rightarrow> ForkMatch fork_username
                  | None \<Rightarrow> NoForkMatch)
               else NoForkMatch))"

definition parse_email :: "string \<Rightarrow> string" where
  "parse_email email =
     (if CHR ''@'' \<in> set email then
        (let userid = filter (\<lambda>c. c \<noteq> CHR ''.'' \<and> c \<noteq> CHR ''-'') (before_first (CHR ''@'') email)
         in if userid = ''lukasc'' then ''lukasc-ubc'' else userid)
      else ''unknown'')"

definition truthy :: "string option \<Rightarrow> bool" where
  "truthy username = (case username of None \<Rightarrow> False | Some u \<Rightarrow> u \<noteq> [])"

text \<open>
  The body of \<open>get_github_username\<close> is one \<open>try\<close> block. \<open>get_github_username_try\<close> is that
  block: it ends either with a returned handle or with an exception, raised by one of the
  two git queries. The API lookup returns in every case (see above), so the e-mail parsing
  follows whenever the lookup gives no user name. \<open>get_github_username\<close> adds the
  \<open>except Exception\<close> clause, which returns the handle unknown. The handle comes with the
  state of the lookup cache after the call.
\<close>

datatype exn = SubprocessRaised

definition get_github_username_try ::
    "nat \<Rightarrow> environment \<Rightarrow> string \<Rightarrow> api_state \<Rightarrow> (exn + string) \<times> api_state" where
  "get_github_username_try limit env file_path s =
     (case git_email env file_path of
        ProcRaised \<Rightarrow> (Inl SubprocessRaised, s)
      | Completed rc out \<Rightarrow>
          if rc = 0 \<and> strip out \<noteq> [] then
            (let email = strip out in
             if is_noreply email
             then (Inr (second_part (CHR ''+'') (before_first (CHR ''@'') email)), s)
             else
               (case match_fork env file_path of
                  ForkRaised \<Rightarrow> (Inl SubprocessRaised, s)
                | ForkMatch fork_username \<Rightarrow> (Inr fork_username, s)
                | NoForkMatch \<Rightarrow>
                    (case get_github_username_from_api limit (api_responses env) email s of
                       (username, s') \<Rightarrow>
                         if truthy username then (Inr (the username), s')
                         else (Inr (parse_email email), s'))))
          else (Inr ''unknown'', s))"

definition get_github_username ::
    "nat \<Rightarrow> environment \<Rightarrow> string \<Rightarrow> api_state \<Rightarrow> string \<times> api_state" where
  "get_github_username limit env file_path s =
     (case get_github_username_try limit env file_path s of
        (Inl e, s') \<Rightarrow> (''unknown'', s')
      | (Inr username, s') \<Rightarrow> (username, s'))"

text \<open>Predicates and concrete environments used to state the properties.\<close>

definition author_email :: "environment \<Rightarrow> string \<Rightarrow> string" where
  "author_email env file_path =
     (case git_email env file_path of ProcRaised \<Rightarrow> [] | Completed rc out \<Rightarrow> strip out)"

definition git_fails :: "environment \<Rightarrow> string \<Rightarrow> bool" where
  "git_fails env file_path =
     (case git_email env file_path of
        ProcRaised \<Rightarrow> True
      | Completed rc out \<Rightarrow> rc \<noteq> 0 \<or> strip out = [])"

definition rate_limited_times :: "(nat \<Rightarrow> response) \<Rightarrow> nat \<Rightarrow> nat \<Rightarrow> bool" where
  "rate_limited_times api n k = ((\<forall>i < k. api (n + i) = RateLimited) \<and> api (n + k) \<noteq> RateLimited)"

definition always_limited :: "nat \<Rightarrow> response" where
  "always_limited n = RateLimited"

definition limited_twice :: "nat \<Rightarrow> response" where
  "limited_twice n = (if n < 2 then RateLimited else Found (Some ''octocat''))"

definition plain_env :: "string \<Rightarrow> (nat \<Rightarrow> response) \<Rightarrow> environment" where
  "plain_env email api =
     \<lparr> git_email = (\<lambda>p. Completed 0 email), git_author = (\<lambda>p. Completed 0 ''Someone''),
       fork_usernames = None, api_responses = api \<rparr>"

definition raising_env :: environment where
  "raising_env =
     \<lparr> git_email = (\<lambda>p. ProcRaised), git_author = (\<lambda>p. ProcRaised),
       fork_usernames = None, api_responses = always_limited \<rparr>"

definition failing_env :: environment where
  "failing_env =
     \<lparr> git_email = (\<lambda>p. Completed 128 []), git_author = (\<lambda>p. ProcRaised),
       fork_usernames = None, api_responses = always_limited \<rparr>"

definition raises :: "nat \<Rightarrow> environment \<Rightarrow> string \<Rightarrow> api_state \<Rightarrow> bool" where
  "raises limit env file_path s = isl (fst (get_github_username_try limit env file_path s))"

definition all_methods_fail :: "nat \<Rightarrow> environment \<Rightarrow> string \<Rightarrow> api_state \<Rightarrow> bool" where
  "all_methods_fail limit env file_path s =
     (\<not> git_fails env file_path
      \<and> \<not> is_noreply (author_email env file_path)
      \<and> match_fork env file_path = NoForkMatch
      \<and> \<not> truthy (fst (get_github_username_from_api limit (api_responses env)
                          (author_email env file_path) s))
      \<and> CHR ''@'' \<notin> set (author_email env file_path))"

definition rate_limited_during :: "(nat \<Rightarrow> response) \<Rightarrow> nat \<Rightarrow> nat \<Rightarrow> bool" where
  "rate_limited_during api n k = (\<forall>i < k. api (n + i) = RateLimited)"

definition never_found :: "nat \<Rightarrow> response" where
  "never_found n = NotFound"


section \<open>Generating the PIClets\<close>

text \<open>
  \<open>generate_piclets\<close>. What the calls made for one PIClet do is given by an attempt: whether
  the assembly of the geometry raises, whether the tapeout directory exists, and whether
  each export call and the call that shows the layout raise. An export call that returns
  has written its file, and one that raises has written none. The state holds the files written and the lines reported, one
  per PIClet.
\<close>

record attempt =
  assembly_raises :: bool
  tapeout_path_exists :: bool
  export_tapeout_raises :: bool
  export_piclets_raises :: bool
  show_raises :: bool

datatype location = Tapeout | Piclets

datatype log_entry = Generated string | ErrorLogged string

record run_state =
  files_written :: "(location \<times> string) list"
  report_log :: "log_entry list"

definition run_start :: run_state where
  "run_start = \<lparr> files_written = [], report_log = [] \<rparr>"

definition written :: "location \<Rightarrow> string \<Rightarrow> run_state \<Rightarrow> run_state" where
  "written loc name st = st\<lparr> files_written := files_written st @ [(loc, name)] \<rparr>"

definition logged :: "log_entry \<Rightarrow> run_state \<Rightarrow> run_state" where
  "logged e st = st\<lparr> report_log := report_log st @ [e] \<rparr>"

definition pair_name :: "string \<Rightarrow> string \<Rightarrow> string" where
  "pair_name username1 username2 = ''PIClet-3x3-'' @ username1 @ ''-'' @ username2"

definition single_name :: "string \<Rightarrow> string" where
  "single_name username = ''PIClet-3x3-'' @ username"

definition process_pair :: "attempt \<Rightarrow> string \<Rightarrow> string \<Rightarrow> run_state \<Rightarrow> run_state" where
  "process_pair at username1 username2 st =
     (let piclet_name = pair_name username1 username2;
          failed = ErrorLogged (username1 @ ''/'' @ username2) in
      if assembly_raises at then logged failed st
      else if \<not> tapeout_path_exists at then logged failed st
      else if export_tapeout_raises at then logged failed st
      else if export_piclets_raises at then logged failed (written Tapeout piclet_name st)
      else if show_raises at
        then logged failed (written Piclets piclet_name (written Tapeout piclet_name st))
      else logged (Generated piclet_name)
             (written Piclets piclet_name (written Tapeout piclet_name st)))"

definition process_single :: "attempt \<Rightarrow> string \<Rightarrow> run_state \<Rightarrow> run_state" where
  "process_single at username st =
     (let piclet_name = single_name username;
          failed = ErrorLogged username in
      if assembly_raises at then logged failed st
      else if export_piclets_raises at then logged failed st
      else if show_raises at then logged failed (written Piclets piclet_name st)
      else if \<not> tapeout_path_exists at then logged failed (written Piclets piclet_name st)
      else if export_tapeout_raises at then logged failed (written Piclets piclet_name st)
      else logged (Generated piclet_name)
             (written Tapeout piclet_name (written Piclets piclet_name st)))"

text \<open>
  The loop over the submissions, two at a time; the attempt of the PIClet that starts at
  index \<open>i\<close> is \<open>world i\<close>. A submission is its file name and its resolved handle.
\<close>

fun generate_piclets ::
    "(nat \<Rightarrow> attempt) \<Rightarrow> nat \<Rightarrow> (string \<times> string) list \<Rightarrow> run_state \<Rightarrow> run_state" where
  "generate_piclets world i (a # b # rest) st =
     generate_piclets world (i + 2) rest (process_pair (world i) (snd a) (snd b) st)"
| "generate_piclets world i [a] st = process_single (world i) (snd a) st"
| "generate_piclets world i [] st = st"

text \<open>Concrete attempts and a batch of four submissions.\<close>

definition second_export_fails :: attempt where
  "second_export_fails =
     \<lparr> assembly_raises = False, tapeout_path_exists = True, export_tapeout_raises = False,
       export_piclets_raises = True, show_raises = False \<rparr>"

definition assembly_fails :: attempt where
  "assembly_fails =
     \<lparr> assembly_raises = True, tapeout_path_exists = True, export_tapeout_raises = False,
       export_piclets_raises = False, show_raises = False \<rparr>"

definition all_succeeds :: attempt where
  "all_succeeds =
     \<lparr> assembly_raises = False, tapeout_path_exists = True, export_tapeout_raises = False,
       export_piclets_raises = False, show_raises = False \<rparr>"

definition first_fails :: "nat \<Rightarrow> attempt" where
  "first_fails i = (if i = 0 then assembly_fails else all_succeeds)"

definition four_submissions :: "(string \<times> string) list" where
  "four_submissions =
     [(''a.gds'', ''alice''), (''b.gds'', ''bob''), (''c.gds'', ''carol''), (''d.gds'', ''dave'')]"


section \<open>The whole run\<close>

text \<open>
  \<open>generate_piclets\<close> from its first line to its last: the submissions are loaded, the
  loop builds the PIClets from the returned submissions, two at a time, and the error
  summary that \<open>load_submission_designs\<close> returned is handed to
  \<open>print_error_summary_table\<close>. \<open>piclet_inputs\<close> lists, for each PIClet of the loop, the
  file names that are passed to \<open>create_piclet_layout\<close>. The layout of the printed table
  is not part of the model.
\<close>

fun piclet_inputs :: "(string \<times> string) list \<Rightarrow> string list list" where
  "piclet_inputs (a # b # rest) = [fst a, fst b] # piclet_inputs rest"
| "piclet_inputs [a] = [[fst a]]"
| "piclet_inputs [] = []"

definition used_in_piclet :: "string \<Rightarrow> (string \<times> string) list \<Rightarrow> bool" where
  "used_in_piclet filename subs = (\<exists>names \<in> set (piclet_inputs subs). filename \<in> set names)"

record run_result =
  piclets :: run_state
  table_input :: "string \<rightharpoonup> error_details"

definition generate_piclets_main :: "(nat \<Rightarrow> attempt) \<Rightarrow> submission_file list \<Rightarrow> run_result" where
  "generate_piclets_main world files =
     (let st = load_submission_designs files in
      \<lparr> piclets = generate_piclets world 0 (submissions st) run_start,
        table_input = error_summary st \<rparr>)"

section \<open>Aligning the reference copy with the chip edge\<close>

text \<open>
  \<open>find_faml_positions\<close>, the local function of \<open>create_simplified_piclet\<close>: the x
  displacements of all instances of the FaML cell below a cell, each composed with the
  transforms of the instances above it. The traversal keeps no set of visited cells; the
  first argument bounds the depth of the recursion and \<open>None\<close> means that the bound was
  reached. The next two arguments are the layout and the name of the FaML cell.
\<close>

fun find_faml_positions :: "nat \<Rightarrow> layout \<Rightarrow> string \<Rightarrow> nat \<Rightarrow> trans \<Rightarrow> int list option"
  and faml_positions_of :: "nat \<Rightarrow> layout \<Rightarrow> string \<Rightarrow> inst list \<Rightarrow> trans \<Rightarrow> int list option"
where
  "find_faml_positions 0 L faml c parent_transform = None"
| "find_faml_positions (Suc n) L faml c parent_transform =
     faml_positions_of n L faml (cell_insts (L ! c)) parent_transform"
| "faml_positions_of n L faml [] parent_transform = Some []"
| "faml_positions_of n L faml (i # is) parent_transform =
     (if cell_name (L ! inst_cell_index i) = faml then
        (case faml_positions_of n L faml is parent_transform of
           None \<Rightarrow> None
         | Some rest \<Rightarrow> Some (disp_x (trans_mul parent_transform (inst_trans i)) # rest))
      else
        (case find_faml_positions n L faml (inst_cell_index i)
                (trans_mul parent_transform (inst_trans i)) of
           None \<Rightarrow> None
         | Some sub_faml_positions \<Rightarrow>
             (case faml_positions_of n L faml is parent_transform of
                None \<Rightarrow> None
              | Some rest \<Rightarrow> Some (sub_faml_positions @ rest))))"

text \<open>
  The configured width of the die, and the new transform of the instance of the copy:
  no rotation, the x displacement that the rightmost FaML position asks for, and the y
  displacement it had. The width is even, so \<open>die_width/2\<close> is the integer \<open>die_width div 2\<close>.
\<close>

definition die_width :: int where
  "die_width = 2753330"

definition align_copy :: "int list \<Rightarrow> trans \<Rightarrow> trans" where
  "align_copy faml_positions subcell_trans =
     (if faml_positions \<noteq> [] then
        (let rightmost_faml_x = Max (set faml_positions);
             chip_right_edge = die_width div 2;
             faml_to_edge_offset = chip_right_edge - rightmost_faml_x
         in trans_disp faml_to_edge_offset (disp_y subcell_trans))
      else subcell_trans)"

text \<open>A copy with one FaML instance of its own and one inside a rotated block.\<close>

definition faml_layout :: layout where
  "faml_layout =
     [ \<lparr> cell_name = ''design_copy'', cell_bbox = unit_box,
         cell_insts = [mk_inst 1 (trans_disp 100 0), mk_inst 2 (trans_disp 50 7)] \<rparr>,
       \<lparr> cell_name = ''block'', cell_bbox = unit_box,
         cell_insts = [mk_inst 2 \<lparr> rot = R180, mirror = False, disp_x = 30, disp_y = 0 \<rparr>] \<rparr>,
       \<lparr> cell_name = ''FaML'', cell_bbox = unit_box, cell_insts = [] \<rparr> ]"


section \<open>Regular-array flattening\<close>

text \<open>
  Modelled from the spec: \<open>instance.is_regular_array()\<close> and \<open>instance.explode()\<close> of the
  layout database, which are not part of the repository. An array of \<open>rows\<close> by \<open>cols\<close>
  placements is replaced by single placements of the same cell, the one in row \<open>r\<close> and
  column \<open>c\<close> displaced from the base transform by \<open>r * step_row + c * step_col\<close>; a
  single placement is left as it is. The members are put where the array was in the
  list of the instances of the cell.
\<close>

definition is_regular_array :: "inst \<Rightarrow> bool" where
  "is_regular_array i = (inst_array i \<noteq> None)"



definition array_count :: "cell \<Rightarrow> nat" where
  "array_count cl = length (filter is_regular_array (cell_insts cl))"











section \<open>Re-parenting an instance\<close>

text \<open>
  Modelled from the spec: the calls of the layout database that
  \<open>move_instance_up_hierarchy\<close> makes, which are not part of the repository. An instance
  is referred to by the index of the cell that holds it and its position among the
  instances of that cell. \<open>cell.each_parent_inst()\<close> lists the instances that place the
  cell, anywhere in the layout. Assigning \<open>instance.parent_cell\<close> moves the instance to
  the given cell, where it is put after the instances already there, and assigning
  \<open>instance.trans\<close> sets its transform.
\<close>

type_synonym inst_ref = "nat \<times> nat"

definition get_inst :: "layout \<Rightarrow> inst_ref \<Rightarrow> inst" where
  "get_inst L r = cell_insts (L ! fst r) ! snd r"

definition each_parent_inst :: "layout \<Rightarrow> nat \<Rightarrow> inst_ref list" where
  "each_parent_inst L c =
     concat (map (\<lambda>p. map (\<lambda>k. (p, k))
                        (filter (\<lambda>k. inst_cell_index (cell_insts (L ! p) ! k) = c)
                                [0..<length (cell_insts (L ! p))]))
                 [0..<length L])"

definition move_to :: "layout \<Rightarrow> inst_ref \<Rightarrow> nat \<Rightarrow> trans \<Rightarrow> layout \<times> inst_ref" where
  "move_to L r target t =
     (let i = get_inst L r;
          source = L ! fst r;
          L1 = L[fst r := source\<lparr> cell_insts := take (snd r) (cell_insts source)
                                               @ drop (Suc (snd r)) (cell_insts source) \<rparr>];
          L2 = L1[target := (L1 ! target)\<lparr> cell_insts := cell_insts (L1 ! target)
                                                          @ [i\<lparr> inst_trans := t \<rparr>] \<rparr>]
      in (L2, (target, length (cell_insts (L1 ! target)))))"

text \<open>
  \<open>move_instance_up_hierarchy\<close>. The loop runs \<open>num_levels + 1\<close> times. In each round the
  transform of the current instance is multiplied onto the accumulated transform from
  the right, the cell of the current instance must be placed exactly once, and the
  recursive instance iterator of the top cell is asked for the instances of the cell
  that holds the current instance; the last instance it delivers becomes the current
  one. What the iterator delivers last for a cell name is an input of the model
  (\<open>lookup\<close>, with \<open>None\<close> when it delivers nothing); the variable \<open>instance1\<close> then
  keeps the value of the round before, and is unbound in the first round.
\<close>

datatype move_error = ValueError | UnboundLocalError

fun walk_up ::
    "layout \<Rightarrow> (string \<Rightarrow> inst_ref option) \<Rightarrow> nat \<Rightarrow> trans \<Rightarrow> inst_ref \<Rightarrow> inst_ref option
       \<Rightarrow> move_error + (trans \<times> inst_ref)" where
  "walk_up L lookup 0 accumulated_transform current_inst instance1 =
     Inr (accumulated_transform, current_inst)"
| "walk_up L lookup (Suc rounds) accumulated_transform current_inst instance1 =
     (let accumulated_transform = trans_mul accumulated_transform (inst_trans (get_inst L current_inst));
          parent_insts = each_parent_inst L (inst_cell_index (get_inst L current_inst))
      in if parent_insts = [] then Inl ValueError
         else if length parent_insts > 1 then Inl ValueError
         else
           (let parent_cell = L ! fst current_inst;
                instance1 = (case lookup (cell_name parent_cell) of
                               Some found \<Rightarrow> Some found
                             | None \<Rightarrow> instance1)
            in case instance1 of
                 None \<Rightarrow> Inl UnboundLocalError
               | Some next_inst \<Rightarrow> walk_up L lookup rounds accumulated_transform next_inst instance1))"

definition move_instance_up_hierarchy ::
    "layout \<Rightarrow> (string \<Rightarrow> inst_ref option) \<Rightarrow> inst_ref \<Rightarrow> nat
       \<Rightarrow> move_error + (layout \<times> inst_ref)" where
  "move_instance_up_hierarchy L lookup instance num_levels =
     (case walk_up L lookup (num_levels + 1) trans_unit instance None of
        Inl e \<Rightarrow> Inl e
      | Inr (accumulated_transform, current_inst) \<Rightarrow>
          Inr (move_to L instance (inst_cell_index (get_inst L current_inst)) accumulated_transform))"

text \<open>
  The absolute transform of an instance, as the data model of the specification defines
  it: its own transform composed with the transforms of the instances that place the
  cells above it, up to the top cell, the outermost first. The first argument bounds
  the number of levels.
\<close>

fun absolute_trans :: "nat \<Rightarrow> layout \<Rightarrow> nat \<Rightarrow> inst_ref \<Rightarrow> trans option" where
  "absolute_trans 0 L top_cell r = None"
| "absolute_trans (Suc n) L top_cell r =
     (if fst r = top_cell then Some (inst_trans (get_inst L r))
      else case each_parent_inst L (fst r) of
             [parent] \<Rightarrow> map_option (\<lambda>a. trans_mul a (inst_trans (get_inst L r)))
                                     (absolute_trans n L top_cell parent)
           | _ \<Rightarrow> None)"

text \<open>
  A chain of four cells, each placed once in the one before: the chip places the block,
  the block places the group rotated by 90 degrees, and the group places the device,
  displaced by 10 along x.
\<close>

definition chain_layout :: layout where
  "chain_layout =
     [ \<lparr> cell_name = ''chip'', cell_bbox = unit_box, cell_insts = [mk_inst 1 (trans_disp 500 0)] \<rparr>,
       \<lparr> cell_name = ''block'', cell_bbox = unit_box,
         cell_insts = [mk_inst 2 \<lparr> rot = R90, mirror = False, disp_x = 0, disp_y = 0 \<rparr>] \<rparr>,
       \<lparr> cell_name = ''group'', cell_bbox = unit_box, cell_insts = [mk_inst 3 (trans_disp 10 0)] \<rparr>,
       \<lparr> cell_name = ''device'', cell_bbox = unit_box, cell_insts = [] \<rparr> ]"

definition chain_lookup :: "string \<Rightarrow> inst_ref option" where
  "chain_lookup name =
     (if name = ''block'' then Some (0, 0)
      else if name = ''group'' then Some (1, 0)
      else if name = ''device'' then Some (2, 0)
      else None)"

section \<open>Properties of the geometry and of the port search\<close>

lemma str_in_sublist: "str_in sub s = sublist sub s"
  by (induction s) (auto simp: sublist_Cons_right)

lemma trans_mul_apply: "trans_apply (trans_mul a b) p = trans_apply a (trans_apply b p)"
  by (cases "rot a"; cases "rot b"; cases "mirror a"; cases "mirror b"; cases p)
     (simp_all add: trans_apply_def trans_mul_def fix_apply_def)

lemma find_port_returns:
  "(c < length L \<longrightarrow> wf_layout L \<longrightarrow> distinct V \<longrightarrow> set V \<subseteq> {..<length L} \<longrightarrow> length L < n + length V
     \<longrightarrow> (\<exists>r V'. find_port_sin_cell_and_position n L c V = Some (r, V')
            \<and> distinct V' \<and> set V' \<subseteq> {..<length L} \<and> length V \<le> length V'))"
  "((\<forall>i \<in> set is. inst_cell_index i < length L) \<longrightarrow> wf_layout L \<longrightarrow> distinct V \<longrightarrow> set V \<subseteq> {..<length L}
     \<longrightarrow> length L < n + length V
     \<longrightarrow> (\<exists>r V'. search_sub_cells n L is V = Some (r, V')
            \<and> distinct V' \<and> set V' \<subseteq> {..<length L} \<and> length V \<le> length V'))"
proof (induction n L c V and n L "is" V rule: find_port_sin_cell_and_position_search_sub_cells.induct)
  case (1 L c V)
  show ?case
  proof (intro impI)
    assume d: "distinct V" and s: "set V \<subseteq> {..<length L}" and l: "length L < 0 + length V"
    have "card (set V) \<le> card {..<length L}" using s by (intro card_mono) auto
    then have "length V \<le> length L" using d by (simp add: distinct_card)
    with l show "\<exists>r V'. find_port_sin_cell_and_position 0 L c V = Some (r, V')
            \<and> distinct V' \<and> set V' \<subseteq> {..<length L} \<and> length V \<le> length V'" by simp
  qed
next
  case (2 n L c V)
  show ?case
  proof (intro impI)
    assume c: "c < length L" and wf: "wf_layout L" and d: "distinct V" and s: "set V \<subseteq> {..<length L}" and l: "length L < Suc n + length V"
    show "\<exists>r V'. find_port_sin_cell_and_position (Suc n) L c V = Some (r, V')
            \<and> distinct V' \<and> set V' \<subseteq> {..<length L} \<and> length V \<le> length V'"
    proof (cases "c \<in> set V")
      case True
      then show ?thesis using d s by simp
    next
      case False
      show ?thesis
      proof (cases "find (is_port_sin L) (cell_insts (L ! c))")
        case (Some i)
        then show ?thesis using False d s c by simp
      next
        case None
        have ch: "\<forall>i \<in> set (cell_insts (L ! c)). inst_cell_index i < length L"
          using wf c unfolding wf_layout_def by auto
        from "2.IH"[OF False None] ch wf d s l False c
        obtain r V' where "search_sub_cells n L (cell_insts (L ! c)) (c # V) = Some (r, V')"
           "distinct V'" "set V' \<subseteq> {..<length L}" "length (c # V) \<le> length V'"
          by auto
        then show ?thesis using False None by auto
      qed
    qed
  qed
next
  case (3 n L V)
  then show ?case by simp
next
  case (4 n L i "is" V)
  show ?case
  proof (intro impI)
    assume ch: "\<forall>i \<in> set (i # is). inst_cell_index i < length L" and wf: "wf_layout L"
      and d: "distinct V" and s: "set V \<subseteq> {..<length L}" and l: "length L < n + length V"
    from "4.IH"(1) ch wf d s l
    obtain r V' where f: "find_port_sin_cell_and_position n L (inst_cell_index i) V = Some (r, V')"
      and d': "distinct V'" and s': "set V' \<subseteq> {..<length L}" and l': "length V \<le> length V'"
      by auto
    show "\<exists>r V'. search_sub_cells n L (i # is) V = Some (r, V')
            \<and> distinct V' \<and> set V' \<subseteq> {..<length L} \<and> length V \<le> length V'"
    proof (cases r)
      case (Some a)
      then show ?thesis using f d' s' l' by simp
    next
      case None
      from "4.IH"(2)[OF f[unfolded None] refl] ch wf d' s' l l'
      obtain r2 V2 where "search_sub_cells n L is V' = Some (r2, V2)"
        "distinct V2" "set V2 \<subseteq> {..<length L}" "length V' \<le> length V2"
        by auto
      then show ?thesis using f None l' by auto
    qed
  qed
qed


lemma find_port_no_marker:
  "(c < length L \<longrightarrow> wf_layout L \<longrightarrow> (\<forall>p \<in> set L. \<forall>i \<in> set (cell_insts p). \<not> is_port_sin L i)
     \<longrightarrow> (\<forall>r V'. find_port_sin_cell_and_position n L c V = Some (r, V') \<longrightarrow> r = None))"
  "((\<forall>i \<in> set is. inst_cell_index i < length L) \<longrightarrow> wf_layout L
     \<longrightarrow> (\<forall>p \<in> set L. \<forall>i \<in> set (cell_insts p). \<not> is_port_sin L i)
     \<longrightarrow> (\<forall>r V'. search_sub_cells n L is V = Some (r, V') \<longrightarrow> r = None))"
proof (induction n L c V and n L "is" V rule: find_port_sin_cell_and_position_search_sub_cells.induct)
  case (1 L c V)
  then show ?case by simp
next
  case (2 n L c V)
  show ?case
  proof (intro impI allI)
    fix r V'
    assume c: "c < length L" and wf: "wf_layout L"
      and nm: "\<forall>p \<in> set L. \<forall>i \<in> set (cell_insts p). \<not> is_port_sin L i"
      and f: "find_port_sin_cell_and_position (Suc n) L c V = Some (r, V')"
    have mem: "L ! c \<in> set L" using c by simp
    have nf: "find (is_port_sin L) (cell_insts (L ! c)) = None"
      using nm mem by (auto simp: find_None_iff)
    have ch: "\<forall>i \<in> set (cell_insts (L ! c)). inst_cell_index i < length L"
      using wf mem unfolding wf_layout_def by blast
    show "r = None"
    proof (cases "c \<in> set V")
      case True
      then show ?thesis using f by simp
    next
      case False
      with f nf have "search_sub_cells n L (cell_insts (L ! c)) (c # V) = Some (r, V')" by simp
      with "2.IH"[OF False nf] ch wf nm show ?thesis by blast
    qed
  qed
next
  case (3 n L V)
  then show ?case by simp
next
  case (4 n L i "is" V)
  show ?case
  proof (intro impI allI)
    fix r V'
    assume ch: "\<forall>i \<in> set (i # is). inst_cell_index i < length L" and wf: "wf_layout L"
      and nm: "\<forall>p \<in> set L. \<forall>i \<in> set (cell_insts p). \<not> is_port_sin L i"
      and f: "search_sub_cells n L (i # is) V = Some (r, V')"
    from f obtain r1 V1 where f1: "find_port_sin_cell_and_position n L (inst_cell_index i) V = Some (r1, V1)"
      by (auto split: option.splits)
    have r1: "r1 = None" using "4.IH"(1) ch wf nm f1 by simp
    with f f1 have "search_sub_cells n L is V1 = Some (r, V')" by simp
    with "4.IH"(2)[OF f1[unfolded r1] refl] ch wf nm show "r = None" by simp
  qed
qed


text \<open>
  C7: on every well-formed layout, also one with a cycle or with a cell shared along
  several paths, the port search returns once the depth bound exceeds the number of
  cells; the cells it scanned are pairwise different (each one is visited at most once),
  and the result is "not found" when no instance of the layout places a port marker.
\<close>

theorem find_port_terminates:
  assumes "wf_layout L" and "c < length L" and "length L < fuel"
  shows "\<exists>r V. find_port_sin_cell_and_position fuel L c [] = Some (r, V) \<and> distinct V
           \<and> (no_port_marker L \<longrightarrow> r = None)"
proof -
  from find_port_returns(1)[of c L "[]" fuel] assms
  obtain r V where f: "find_port_sin_cell_and_position fuel L c [] = Some (r, V)" and d: "distinct V"
    by auto
  have "no_port_marker L \<longrightarrow> r = None"
    using find_port_no_marker(1)[of c L fuel "[]"] assms f unfolding no_port_marker_def by blast
  with f d show ?thesis by blast
qed

text \<open>The search on the cyclic layout, as an instance of the theorem.\<close>

lemma cyc_wf: "wf_layout cyclic_layout"
  by (simp add: wf_layout_def cyclic_layout_def mk_inst_def)

lemma cyc_nm: "no_port_marker cyclic_layout"
  by (simp add: no_port_marker_def cyclic_layout_def mk_inst_def is_port_sin_def)

theorem find_port_terminates_witness:
  "wf_layout cyclic_layout \<and> 0 < length cyclic_layout \<and> length cyclic_layout < 3
   \<and> no_port_marker cyclic_layout
   \<and> (\<exists>V. find_port_sin_cell_and_position 3 cyclic_layout 0 [] = Some (None, V) \<and> distinct V)"
proof -
  have l: "length cyclic_layout < 3" "0 < length cyclic_layout" by (simp_all add: cyclic_layout_def)
  from find_port_terminates[OF cyc_wf l(2) l(1)] cyc_nm cyc_wf l show ?thesis by blast
qed

lemma cyc_value: "find_port_sin_cell_and_position 3 cyclic_layout 0 [] = Some (None, [1, 0])"
  by (simp add: numeral_3_eq_3 cyclic_layout_def mk_inst_def is_port_sin_def)

text \<open>
  C3: for a port marker placed two levels below the searched cell, the search returns the
  y coordinate of the marker in the frame of the cell that directly contains it (5),
  not in the frame of the searched cell, where the centre of the marker lies at 105.
\<close>

theorem find_port_frame_example:
  "find_port_sin_cell_and_position 3 nested_port_layout 0 [] = Some (Some (2, 5), [1, 0])
   \<and> box_center_y (box_transformed (trans_mul (trans_disp 0 100) (trans_disp 0 5))
         (cell_bbox (nested_port_layout ! 2))) = 105"
  by (simp add: numeral_3_eq_3 nested_port_layout_def mk_inst_def is_port_sin_def inst_bbox_def
      box_center_y_def box_transformed_def box_of_points_def trans_apply_def fix_apply_def
      trans_disp_def trans_mul_def unit_box_def)


section \<open>Properties of the loading loop\<close>

lemma count_line_disconnected:
  "disconnected_pins (count_line line ec) =
     disconnected_pins ec + (if str_in ''disconnected pin'' (lower line) then 1 else 0)"
  by (simp add: count_line_def Let_def)

lemma fold_count_line_disconnected:
  "disconnected_pins (fold count_line ls ec) =
     disconnected_pins ec + length (filter (\<lambda>l. str_in ''disconnected pin'' (lower l)) ls)"
  by (induction ls arbitrary: ec) (simp_all add: count_line_disconnected)

lemma parse_disconnected_positive:
  "has_disconnected_pin_line report \<Longrightarrow> 0 < disconnected_pins (parse_verification_errors report)"
  unfolding has_disconnected_pin_line_def parse_verification_errors_def
  by (auto simp: fold_count_line_disconnected no_errors_def filter_empty_conv)

lemma load_file_other:
  "file_name g \<noteq> n \<Longrightarrow> error_summary (load_file g st) n = error_summary st n"
  by (auto simp: load_file_def skip_file_def accept_file_def Let_def
      split: check_result.splits option.splits)

lemma load_file_submissions:
  "fst ` set (submissions (load_file g st)) \<subseteq> insert (file_name g) (fst ` set (submissions st))"
  by (auto simp: load_file_def skip_file_def accept_file_def Let_def
      split: check_result.splits option.splits)

lemma fold_load_other:
  "n \<notin> file_name ` set gs \<Longrightarrow>
     error_summary (fold load_file gs st) n = error_summary st n
     \<and> (n \<notin> fst ` set (submissions st) \<longrightarrow> n \<notin> fst ` set (submissions (fold load_file gs st)))"
proof (induction gs arbitrary: st)
  case Nil
  then show ?case by simp
next
  case (Cons g gs)
  then have ne: "file_name g \<noteq> n" and rest: "n \<notin> file_name ` set gs" by auto
  from load_file_submissions[of g st] ne
  have "n \<notin> fst ` set (submissions st) \<Longrightarrow> n \<notin> fst ` set (submissions (load_file g st))" by auto
  with Cons.IH[OF rest, of "load_file g st"] load_file_other[OF ne, of st] show ?case by auto
qed

lemma load_file_skips:
  assumes "verbose_report f = Some report" and "has_disconnected_pin_line report"
  shows "load_file f st = skip_file f (ErrorCounts (parse_verification_errors report)) st"
proof -
  from assms(1) obtain k where k: "check f = CheckCount k" "0 < k" "report = verbose_output f"
    by (auto simp: verbose_report_def split: check_result.splits if_splits)
  with parse_disconnected_positive[OF assms(2)] show ?thesis
    by (simp add: load_file_def Let_def)
qed

lemma fold_load_split:
  assumes "distinct (map file_name files)" and "f \<in> set files"
    and "n \<notin> fst ` set (submissions st)" "file_name f = n"
    and "verbose_report f = Some report" and "has_disconnected_pin_line report"
  shows "n \<notin> fst ` set (submissions (fold load_file files st))
     \<and> error_summary (fold load_file files st) n
         = Some (ErrorCounts (parse_verification_errors report))"
  using assms
proof (induction files arbitrary: st)
  case Nil
  then show ?case by simp
next
  case (Cons g gs)
  show ?case
  proof (cases "g = f")
    case True
    have nin: "n \<notin> file_name ` set gs" using Cons.prems(1,4) True by auto
    have st': "load_file g st = skip_file f (ErrorCounts (parse_verification_errors report)) st"
      using load_file_skips[OF Cons.prems(5,6)] True by simp
    have "n \<notin> fst ` set (submissions (load_file g st))"
       "error_summary (load_file g st) n = Some (ErrorCounts (parse_verification_errors report))"
      using st' Cons.prems(3,4) by (simp_all add: skip_file_def)
    with fold_load_other[OF nin, of "load_file g st"] show ?thesis by simp
  next
    case False
    then have fin: "f \<in> set gs" using Cons.prems(2) by simp
    have ne: "file_name g \<noteq> n" using Cons.prems(1,4) fin by auto
    have "n \<notin> fst ` set (submissions (load_file g st))"
      using load_file_submissions[of g st] ne Cons.prems(3) by auto
    with Cons.IH[of "load_file g st"] Cons.prems fin show ?thesis by simp
  qed
qed

lemma piclet_inputs_names:
  "(\<Union>names \<in> set (piclet_inputs subs). set names) = fst ` set subs"
  by (induction subs rule: piclet_inputs.induct) auto

lemma used_in_piclet_iff: "used_in_piclet filename subs \<longleftrightarrow> filename \<in> fst ` set subs"
  using piclet_inputs_names[of subs] unfolding used_in_piclet_def by blast

text \<open>
  C6: a file whose verbose verification report has a line that contains "disconnected
  pin", in any case, is not among the submissions that \<open>load_submission_designs\<close>
  returns, so that no PIClet of the loop is built from it, and the error summary holds
  its categorised counts, with a positive count of disconnected pins; this summary is the
  one handed to the printing of the table. The files of a directory have distinct names.
\<close>

theorem disconnected_pin_file_excluded:
  assumes "distinct (map file_name files)" and "f \<in> set files"
    and "verbose_report f = Some report"
    and "has_disconnected_pin_line report"
  shows "file_name f \<notin> fst ` set (submissions (load_submission_designs files))
     \<and> \<not> used_in_piclet (file_name f) (submissions (load_submission_designs files))
     \<and> error_summary (load_submission_designs files) (file_name f)
         = Some (ErrorCounts (parse_verification_errors report))
     \<and> 0 < disconnected_pins (parse_verification_errors report)
     \<and> table_input (generate_piclets_main world files) (file_name f)
         = Some (ErrorCounts (parse_verification_errors report))"
proof -
  have a: "file_name f \<notin> fst ` set (submissions (load_submission_designs files))
     \<and> error_summary (load_submission_designs files) (file_name f)
         = Some (ErrorCounts (parse_verification_errors report))"
    unfolding load_submission_designs_def
    using fold_load_split[OF assms(1,2) _ refl assms(3,4), of load_start]
    by (simp add: load_start_def)
  then have "\<not> used_in_piclet (file_name f) (submissions (load_submission_designs files))"
    by (simp add: used_in_piclet_iff)
  moreover have "table_input (generate_piclets_main world files)
                   = error_summary (load_submission_designs files)"
    by (simp add: generate_piclets_main_def Let_def)
  ultimately show ?thesis
    using a parse_disconnected_positive[OF assms(4)] by simp
qed

text \<open>The theorem at a batch of two files, the second with two reported errors.\<close>

lemma broken_report: "verbose_report broken_file = Some ''Error: Disconnected Pin''"
  by (simp add: verbose_report_def broken_file_def)

lemma broken_has_line: "has_disconnected_pin_line ''Error: Disconnected Pin''"
  by (simp add: has_disconnected_pin_line_def lower_def lower_char_def upper_letters_def
      lower_letters_def)

theorem disconnected_pin_file_excluded_witness:
  "distinct (map file_name [clean_file ''a.gds'' ''bob'', broken_file])
   \<and> verbose_report broken_file = Some ''Error: Disconnected Pin''
   \<and> has_disconnected_pin_line ''Error: Disconnected Pin''
   \<and> file_name broken_file
       \<notin> fst ` set (submissions (load_submission_designs [clean_file ''a.gds'' ''bob'', broken_file]))
   \<and> \<not> used_in_piclet ''x.gds''
         (submissions (load_submission_designs [clean_file ''a.gds'' ''bob'', broken_file]))
   \<and> error_summary (load_submission_designs [clean_file ''a.gds'' ''bob'', broken_file]) ''x.gds''
       = Some (ErrorCounts (parse_verification_errors ''Error: Disconnected Pin''))
   \<and> table_input (generate_piclets_main first_fails [clean_file ''a.gds'' ''bob'', broken_file])
       ''x.gds''
       = Some (ErrorCounts (parse_verification_errors ''Error: Disconnected Pin''))"
proof -
  have d: "distinct (map file_name [clean_file ''a.gds'' ''bob'', broken_file])"
    by (simp add: clean_file_def broken_file_def)
  have m: "broken_file \<in> set [clean_file ''a.gds'' ''bob'', broken_file]" by simp
  have n: "file_name broken_file = ''x.gds''" by (simp add: broken_file_def)
  from disconnected_pin_file_excluded[OF d m broken_report broken_has_line, of first_fails]
    d broken_report broken_has_line
  show ?thesis by (simp only: n) simp
qed

text \<open>
  C8: three files whose handles resolve to bob, bob and bob2. The second file is named
  bob2 by the suffix rule, and the third keeps its own handle bob2: two submissions of
  the batch carry the same name.
\<close>

theorem duplicate_handle_collision:
  "map snd (submissions (load_submission_designs bob_files)) = [''bob'', ''bob2'', ''bob2'']"
  by (simp add: bob_files_def clean_file_def load_submission_designs_def load_file_def
      accept_file_def load_start_def digit_char_def Let_def)


section \<open>Properties of the handle resolution\<close>

lemma api_returns_after:
  "cache s email = None \<Longrightarrow> rate_limited_times api (length (request_log s)) k \<Longrightarrow> k < limit \<Longrightarrow>
     \<exists>r s'. get_github_username_from_api limit api email s = (r, s')
        \<and> sleep_log s' = sleep_log s @ replicate k 60
        \<and> request_log s' = request_log s @ replicate (Suc k) email"
proof (induction k arbitrary: s limit)
  case 0
  then obtain l where l: "limit = Suc l" by (cases limit) auto
  from 0 have "api (length (request_log s)) \<noteq> RateLimited" by (simp add: rate_limited_times_def)
  with 0(1) show ?case unfolding l
    by (cases "api (length (request_log s))") (simp_all add: cached_def requested_def)
next
  case (Suc k)
  then obtain l where l: "limit = Suc l" and kl: "k < l" by (cases limit) auto
  let ?s = "slept 60 (requested email s)"
  have r: "api (length (request_log s)) = RateLimited"
    using Suc.prems(2) unfolding rate_limited_times_def by (metis add.right_neutral zero_less_Suc)
  have c: "cache ?s email = None" using Suc.prems(1) by (simp add: slept_def requested_def)
  have t: "rate_limited_times api (length (request_log ?s)) k"
    using Suc.prems(2) unfolding rate_limited_times_def
    by (auto simp: slept_def requested_def)
  from Suc.IH[OF c t kl] obtain r' s' where
    g: "get_github_username_from_api l api email ?s = (r', s')"
    and sl: "sleep_log s' = sleep_log ?s @ replicate k 60"
    and rq: "request_log s' = request_log ?s @ replicate (Suc k) email" by blast
  have "get_github_username_from_api limit api email s = (r', s')"
    using g r Suc.prems(1) unfolding l by simp
  moreover have "sleep_log s' = sleep_log s @ replicate (Suc k) 60"
    using sl by (simp add: slept_def requested_def replicate_append_same)
  moreover have "request_log s' = request_log s @ replicate (Suc (Suc k)) email"
    using rq by (simp add: slept_def requested_def)
  ultimately show ?case by blast
qed

lemma api_rate_limited:
  "cache s email = None \<Longrightarrow> rate_limited_during api (length (request_log s)) limit \<Longrightarrow>
     get_github_username_from_api limit api email s
       = (None, s\<lparr> request_log := request_log s @ replicate limit email,
                   sleep_log := sleep_log s @ replicate limit 60 \<rparr>)"
proof (induction limit arbitrary: s)
  case 0
  then show ?case by simp
next
  case (Suc limit)
  let ?s = "slept 60 (requested email s)"
  have r: "api (length (request_log s)) = RateLimited"
    using Suc.prems(2) unfolding rate_limited_during_def by (metis add.right_neutral zero_less_Suc)
  have c: "cache ?s email = None" using Suc.prems(1) by (simp add: slept_def requested_def)
  have t: "rate_limited_during api (length (request_log ?s)) limit"
    using Suc.prems(2) unfolding rate_limited_during_def
    by (auto simp: slept_def requested_def)
  have "get_github_username_from_api (Suc limit) api email s
          = get_github_username_from_api limit api email ?s"
    using r Suc.prems(1) by simp
  also have "\<dots> = (None, ?s\<lparr> request_log := request_log ?s @ replicate limit email,
                             sleep_log := sleep_log ?s @ replicate limit 60 \<rparr>)"
    by (rule Suc.IH[OF c t])
  also have "\<dots> = (None, s\<lparr> request_log := request_log s @ replicate (Suc limit) email,
                            sleep_log := sleep_log s @ replicate (Suc limit) 60 \<rparr>)"
    by (simp add: slept_def requested_def)
  finally show ?case .
qed

lemma api_not_found:
  "cache s email = None \<Longrightarrow> api (length (request_log s)) = NotFound \<Longrightarrow> 0 < limit \<Longrightarrow>
     get_github_username_from_api limit api email s
       = (None, cached email None (requested email s))"
  by (cases limit) simp_all

lemma always_limited_during: "rate_limited_during always_limited n k"
  by (simp add: rate_limited_during_def always_limited_def)

text \<open>
  C9, as amended: for an address that is not cached, every answer 403 is followed by one
  sleep of 60 seconds and a request for the same address, with no bound in the function
  and no growth of the delay. After \<open>k\<close> such answers and one other answer, the call
  returns, having slept \<open>k\<close> times 60 seconds and requested the address \<open>k + 1\<close> times,
  provided the recursion limit of the interpreter allows \<open>k + 1\<close> nested calls. When every
  answer is 403, the retries go on until that limit is reached: the call has then slept
  60 seconds after each of its requests, and it returns \<open>None\<close> with the cache
  unchanged.
\<close>

theorem rate_limit_retry:
  assumes "cache s email = None"
  shows "(rate_limited_times api (length (request_log s)) k \<and> k < limit \<longrightarrow>
            (\<exists>r s'. get_github_username_from_api limit api email s = (r, s')
               \<and> sleep_log s' = sleep_log s @ replicate k 60
               \<and> request_log s' = request_log s @ replicate (Suc k) email))
       \<and> (rate_limited_during api (length (request_log s)) limit \<longrightarrow>
            get_github_username_from_api limit api email s
              = (None, s\<lparr> request_log := request_log s @ replicate limit email,
                          sleep_log := sleep_log s @ replicate limit 60 \<rparr>))"
  using api_returns_after[OF assms] api_rate_limited[OF assms] by blast

text \<open>Two rate-limited answers before a result, and rate-limited answers for ever.\<close>

lemma limited_twice_times: "rate_limited_times limited_twice 0 2"
  by (simp add: rate_limited_times_def limited_twice_def)

theorem rate_limit_retry_witness:
  "cache api_start ''a@b.c'' = None
   \<and> rate_limited_times limited_twice 0 2
   \<and> rate_limited_during always_limited 0 1000
   \<and> (\<exists>r s'. get_github_username_from_api 1000 limited_twice ''a@b.c'' api_start = (r, s')
         \<and> sleep_log s' = [60, 60] \<and> request_log s' = [''a@b.c'', ''a@b.c'', ''a@b.c''])
   \<and> get_github_username_from_api 1000 always_limited ''a@b.c'' api_start
       = (None, api_start\<lparr> request_log := replicate 1000 ''a@b.c'',
                           sleep_log := replicate 1000 60 \<rparr>)"
proof -
  have c: "cache api_start ''a@b.c'' = None" by (simp add: api_start_def)
  have l: "length (request_log api_start) = 0" by (simp add: api_start_def)
  from rate_limit_retry[OF c, of limited_twice 2 1000] limited_twice_times l
  have a: "\<exists>r s'. get_github_username_from_api 1000 limited_twice ''a@b.c'' api_start = (r, s')
         \<and> sleep_log s' = [60, 60] \<and> request_log s' = [''a@b.c'', ''a@b.c'', ''a@b.c'']"
    by (simp add: api_start_def numeral_2_eq_2)
  from rate_limit_retry[OF c, of always_limited 0 1000] always_limited_during[of 0 1000] l
  have b: "get_github_username_from_api 1000 always_limited ''a@b.c'' api_start
       = (None, api_start\<lparr> request_log := replicate 1000 ''a@b.c'',
                           sleep_log := replicate 1000 60 \<rparr>)"
    by (simp add: api_start_def)
  from a b c limited_twice_times always_limited_during[of 0 1000] show ?thesis by blast
qed

text \<open>
  C9 as stated fails in its last part: when every answer is 403 and the interpreter
  allows 1000 nested calls, the call returns \<open>None\<close> after 1000 requests for the address,
  each followed by a sleep of 60 seconds.
\<close>

theorem rate_limited_call_returns:
  "get_github_username_from_api 1000 always_limited ''bob@example.com'' api_start
     = (None, api_start\<lparr> request_log := replicate 1000 ''bob@example.com'',
                         sleep_log := replicate 1000 60 \<rparr>)"
  using api_rate_limited[of api_start "''bob@example.com''" always_limited 1000]
    always_limited_during[of 0 1000]
  by (simp add: api_start_def)

lemma unknown_when_raises:
  "raises limit env file_path s \<Longrightarrow> fst (get_github_username limit env file_path s) = ''unknown''"
  by (cases "get_github_username_try limit env file_path s")
     (auto simp: raises_def get_github_username_def split: sum.splits)

lemma unknown_when_git_fails:
  "git_fails env file_path \<Longrightarrow> get_github_username limit env file_path s = (''unknown'', s)"
  by (auto simp: git_fails_def get_github_username_def get_github_username_try_def
      split: proc_result.splits)

lemma unknown_when_all_fail:
  assumes "all_methods_fail limit env file_path s"
  shows "fst (get_github_username limit env file_path s) = ''unknown''"
proof -
  from assms obtain rc out where g: "git_email env file_path = Completed rc out"
    and ok: "rc = 0" "strip out \<noteq> []"
    by (auto simp: all_methods_fail_def git_fails_def split: proc_result.splits)
  then have e: "author_email env file_path = strip out" by (simp add: author_email_def)
  obtain r s' where
    a: "get_github_username_from_api limit (api_responses env) (strip out) s = (r, s')"
    by (cases "get_github_username_from_api limit (api_responses env) (strip out) s")
  from assms e a have t: "\<not> truthy r"
    and n: "\<not> is_noreply (strip out)" and f: "match_fork env file_path = NoForkMatch"
    and at: "CHR ''@'' \<notin> set (strip out)"
    by (auto simp: all_methods_fail_def)
  show ?thesis
    using g ok a t n f at
    by (simp add: get_github_username_def get_github_username_try_def Let_def parse_email_def)
qed

lemma parsed_when_rate_limited:
  assumes "\<not> git_fails env file_path"
    and "\<not> is_noreply (author_email env file_path)"
    and "match_fork env file_path = NoForkMatch"
    and "cache s (author_email env file_path) = None"
    and "rate_limited_during (api_responses env) (length (request_log s)) limit"
  shows "fst (get_github_username limit env file_path s) = parse_email (author_email env file_path)"
proof -
  from assms(1) obtain rc out where g: "git_email env file_path = Completed rc out"
    and ok: "rc = 0" "strip out \<noteq> []"
    by (auto simp: git_fails_def split: proc_result.splits)
  then have e: "author_email env file_path = strip out" by (simp add: author_email_def)
  have a: "fst (get_github_username_from_api limit (api_responses env) (strip out) s) = None"
    using api_rate_limited[OF assms(4)[unfolded e] assms(5)] by simp
  obtain r s' where
    b: "get_github_username_from_api limit (api_responses env) (strip out) s = (r, s')"
    by (cases "get_github_username_from_api limit (api_responses env) (strip out) s")
  with a have r: "r = None" by simp
  show ?thesis
    using g ok b r assms(2,3) e
    by (simp add: get_github_username_def get_github_username_try_def Let_def truthy_def)
qed

text \<open>
  C10: \<open>get_github_username\<close> returns a handle for every file path, whatever the git
  queries and the API do. An exception raised inside the function ends in the handle
  unknown; when the git query fails or yields no address the handle is unknown; when
  every method fails the handle is unknown; and when the API answers 403 to every request
  of the lookup, the handle is the one parsed from the address.
\<close>

theorem get_github_username_total:
  "(\<exists>username s'. get_github_username limit env file_path s = (username, s'))
   \<and> (raises limit env file_path s \<longrightarrow>
        fst (get_github_username limit env file_path s) = ''unknown'')
   \<and> (git_fails env file_path \<longrightarrow>
        get_github_username limit env file_path s = (''unknown'', s))
   \<and> (all_methods_fail limit env file_path s \<longrightarrow>
        fst (get_github_username limit env file_path s) = ''unknown'')
   \<and> (\<not> git_fails env file_path \<and> \<not> is_noreply (author_email env file_path)
        \<and> match_fork env file_path = NoForkMatch
        \<and> cache s (author_email env file_path) = None
        \<and> rate_limited_during (api_responses env) (length (request_log s)) limit \<longrightarrow>
        fst (get_github_username limit env file_path s)
          = parse_email (author_email env file_path))"
proof -
  have "\<exists>username s'. get_github_username limit env file_path s = (username, s')"
    by (cases "get_github_username limit env file_path s") simp
  then show ?thesis
    using unknown_when_raises unknown_when_git_fails unknown_when_all_fail
      parsed_when_rate_limited by blast
qed

text \<open>
  Concrete runs: a noreply address, a git query that raises, a git query that fails, an
  address with no at sign that the API does not know, and an ordinary address under
  rate limiting.
\<close>

lemma noreply_example:
  "get_github_username 1000 (plain_env ''12345+alice@users.noreply.github.com'' always_limited)
     ''submissions/a.gds'' api_start = (''alice'', api_start)"
  by (simp add: get_github_username_def get_github_username_try_def plain_env_def strip_def
      is_space_def is_noreply_def before_first_def second_part_def Let_def)

lemma raising_env_raises: "raises 1000 raising_env ''submissions/a.gds'' api_start"
  by (simp add: raises_def get_github_username_try_def raising_env_def)

lemma failing_env_fails: "git_fails failing_env ''submissions/a.gds''"
  by (simp add: git_fails_def failing_env_def)

lemma local_user_all_fail:
  "all_methods_fail 1000 (plain_env ''localuser'' never_found) ''submissions/a.gds'' api_start"
proof -
  have "get_github_username_from_api 1000 never_found ''localuser'' api_start
          = (None, cached ''localuser'' None (requested ''localuser'' api_start))"
    by (rule api_not_found) (simp_all add: api_start_def never_found_def)
  then show ?thesis
    by (simp add: all_methods_fail_def git_fails_def plain_env_def author_email_def strip_def
        is_space_def is_noreply_def match_fork_def truthy_def)
qed

lemma bob_rate_limited:
  "\<not> git_fails (plain_env ''bob@example.com'' always_limited) ''submissions/a.gds''
   \<and> \<not> is_noreply (author_email (plain_env ''bob@example.com'' always_limited) ''submissions/a.gds'')
   \<and> match_fork (plain_env ''bob@example.com'' always_limited) ''submissions/a.gds'' = NoForkMatch
   \<and> cache api_start (author_email (plain_env ''bob@example.com'' always_limited) ''submissions/a.gds'') = None
   \<and> rate_limited_during (api_responses (plain_env ''bob@example.com'' always_limited))
        (length (request_log api_start)) 1000"
  by (simp add: git_fails_def plain_env_def author_email_def strip_def is_space_def
      is_noreply_def before_first_def match_fork_def api_start_def always_limited_during)

lemma bob_parsed:
  "parse_email (author_email (plain_env ''bob@example.com'' always_limited) ''submissions/a.gds'')
     = ''bob''"
  by (simp add: plain_env_def author_email_def strip_def is_space_def parse_email_def
      before_first_def Let_def)

theorem get_github_username_total_witness:
  "raises 1000 raising_env ''submissions/a.gds'' api_start
   \<and> fst (get_github_username 1000 raising_env ''submissions/a.gds'' api_start) = ''unknown''
   \<and> git_fails failing_env ''submissions/a.gds''
   \<and> get_github_username 1000 failing_env ''submissions/a.gds'' api_start = (''unknown'', api_start)
   \<and> all_methods_fail 1000 (plain_env ''localuser'' never_found) ''submissions/a.gds'' api_start
   \<and> fst (get_github_username 1000 (plain_env ''localuser'' never_found) ''submissions/a.gds''
            api_start) = ''unknown''
   \<and> rate_limited_during (api_responses (plain_env ''bob@example.com'' always_limited))
        (length (request_log api_start)) 1000
   \<and> fst (get_github_username 1000 (plain_env ''bob@example.com'' always_limited)
            ''submissions/a.gds'' api_start) = ''bob''"
proof -
  from get_github_username_total[of 1000 raising_env "''submissions/a.gds''" api_start]
    raising_env_raises
  have a: "fst (get_github_username 1000 raising_env ''submissions/a.gds'' api_start) = ''unknown''"
    by blast
  from get_github_username_total[of 1000 failing_env "''submissions/a.gds''" api_start]
    failing_env_fails
  have b: "get_github_username 1000 failing_env ''submissions/a.gds'' api_start
             = (''unknown'', api_start)"
    by blast
  from get_github_username_total[of 1000 "plain_env ''localuser'' never_found"
      "''submissions/a.gds''" api_start] local_user_all_fail
  have c: "fst (get_github_username 1000 (plain_env ''localuser'' never_found)
                  ''submissions/a.gds'' api_start) = ''unknown''"
    by blast
  from get_github_username_total[of 1000 "plain_env ''bob@example.com'' always_limited"
      "''submissions/a.gds''" api_start] bob_rate_limited
  have "fst (get_github_username 1000 (plain_env ''bob@example.com'' always_limited)
               ''submissions/a.gds'' api_start)
          = parse_email (author_email (plain_env ''bob@example.com'' always_limited)
                           ''submissions/a.gds'')"
    by blast
  then have d: "fst (get_github_username 1000 (plain_env ''bob@example.com'' always_limited)
                       ''submissions/a.gds'' api_start) = ''bob''"
    by (simp only: bob_parsed)
  from a b c d raising_env_raises failing_env_fails local_user_all_fail bob_rate_limited
  show ?thesis by blast
qed

section \<open>Properties of the generation loop\<close>

lemma generate_piclets_log_length:
  "length (report_log (generate_piclets world i subs st)) = length (report_log st) + (length subs + 1) div 2"
  by (induction world i subs st rule: generate_piclets.induct)
     (simp_all add: process_pair_def process_single_def logged_def written_def Let_def)

text \<open>
  C4, as amended: when the assembly of the geometry raises (or, for two submissions,
  when the tapeout directory is missing, which is checked before the first export), the
  PIClet only adds the line that reports the error: no file is written for it. Whatever
  fails, every PIClet of the batch is attempted and reported: the loop goes on to the
  next pair.
\<close>

theorem failed_assembly_writes_no_file:
  "(assembly_raises at \<or> \<not> tapeout_path_exists at \<longrightarrow>
      process_pair at username1 username2 st = logged (ErrorLogged (username1 @ ''/'' @ username2)) st)
   \<and> (assembly_raises at \<longrightarrow> process_single at username st = logged (ErrorLogged username) st)
   \<and> files_written (logged e st) = files_written st
   \<and> length (report_log (generate_piclets world i subs st)) = length (report_log st) + (length subs + 1) div 2"
  by (simp add: generate_piclets_log_length process_pair_def process_single_def logged_def Let_def)

theorem failed_assembly_writes_no_file_witness:
  "assembly_raises assembly_fails
   \<and> process_pair assembly_fails ''alice'' ''bob'' run_start
       = \<lparr> files_written = [], report_log = [ErrorLogged ''alice/bob''] \<rparr>
   \<and> process_single assembly_fails ''alice'' run_start = \<lparr> files_written = [], report_log = [ErrorLogged ''alice''] \<rparr>
   \<and> generate_piclets first_fails 0 four_submissions run_start
       = \<lparr> files_written = [(Tapeout, ''PIClet-3x3-carol-dave''), (Piclets, ''PIClet-3x3-carol-dave'')],
           report_log = [ErrorLogged ''alice/bob'', Generated ''PIClet-3x3-carol-dave''] \<rparr>"
proof -
  have a: "assembly_raises assembly_fails" by (simp add: assembly_fails_def)
  from failed_assembly_writes_no_file[of assembly_fails "''alice''" "''bob''" run_start "''alice''"] a
  have "process_pair assembly_fails ''alice'' ''bob'' run_start = logged (ErrorLogged ''alice/bob'') run_start"
    "process_single assembly_fails ''alice'' run_start = logged (ErrorLogged ''alice'') run_start"
    by simp_all
  moreover have "generate_piclets first_fails 0 four_submissions run_start
       = \<lparr> files_written = [(Tapeout, ''PIClet-3x3-carol-dave''), (Piclets, ''PIClet-3x3-carol-dave'')],
           report_log = [ErrorLogged ''alice/bob'', Generated ''PIClet-3x3-carol-dave''] \<rparr>"
    by (simp add: four_submissions_def first_fails_def process_pair_def assembly_fails_def
        all_succeeds_def logged_def written_def run_start_def pair_name_def Let_def)
  ultimately show ?thesis using a by (simp add: logged_def run_start_def)
qed

text \<open>
  C4 as stated fails: for two submissions, when the export to the output directory raises
  after the export to the tapeout directory has returned, the error is reported and the
  file in the tapeout directory stays.
\<close>

theorem failed_export_leaves_one_file:
  "process_pair second_export_fails ''alice'' ''bob'' run_start
     = \<lparr> files_written = [(Tapeout, ''PIClet-3x3-alice-bob'')], report_log = [ErrorLogged ''alice/bob''] \<rparr>"
  by (simp add: process_pair_def second_export_fails_def logged_def written_def run_start_def
      pair_name_def Let_def)


section \<open>Properties of the alignment of the reference copy\<close>

lemma trans_mul_assoc: "trans_mul (trans_mul a b) c = trans_mul a (trans_mul b c)"
  by (cases "rot a"; cases "rot b"; cases "rot c"; cases "mirror a"; cases "mirror b"; cases "mirror c")
     (simp_all add: trans_mul_def fix_apply_def)

lemma trans_mul_unit: "trans_mul trans_unit a = a" "trans_mul a trans_unit = a"
  by (cases "rot a"; cases "mirror a"; simp add: trans_mul_def trans_unit_def fix_apply_def)+

lemma disp_x_shift: "disp_x (trans_mul (trans_disp dx dy) t) = dx + disp_x t"
  by (simp add: trans_mul_def trans_disp_def fix_apply_def)

lemma faml_positions_shift:
  "find_faml_positions n L faml c (trans_mul (trans_disp dx dy) T)
     = map_option (map (\<lambda>x. dx + x)) (find_faml_positions n L faml c T)"
  "faml_positions_of n L faml is (trans_mul (trans_disp dx dy) T)
     = map_option (map (\<lambda>x. dx + x)) (faml_positions_of n L faml is T)"
proof (induction n L faml c T and n L faml "is" T rule: find_faml_positions_faml_positions_of.induct)
  case (4 n L faml i "is" T)
  then show ?case
    by (auto simp: trans_mul_assoc disp_x_shift split: option.splits)
qed simp_all


lemma Max_shift:
  assumes "xs \<noteq> []"
  shows "Max (set (map (\<lambda>x. d + x) xs)) = d + Max (set (xs :: int list))"
proof -
  have "mono (\<lambda>x::int. d + x)" by (simp add: mono_def)
  from mono_Max_commute[OF this, of "set xs"] assms show ?thesis by simp
qed

text \<open>
  C2: when the traversal of the copy finds at least one FaML instance, the copy is given
  the transform computed from the rightmost position; the same traversal, started with
  that transform at the root of the copy, then finds the FaML instances at absolute x
  coordinates whose maximum is exactly the right edge of the chip, \<open>die_width/2\<close>.
\<close>

theorem faml_aligned_with_chip_edge:
  assumes "find_faml_positions fuel L faml copy trans_unit = Some xs" and "xs \<noteq> []"
  shows "\<exists>ys. find_faml_positions fuel L faml copy (align_copy xs t) = Some ys
           \<and> ys \<noteq> [] \<and> Max (set ys) = die_width div 2 \<and> die_width div 2 = 1376665"
proof -
  let ?d = "die_width div 2 - Max (set xs)"
  have a: "align_copy xs t = trans_mul (trans_disp ?d (disp_y t)) trans_unit"
    using assms(2) by (simp add: align_copy_def Let_def trans_mul_unit)
  have "find_faml_positions fuel L faml copy (align_copy xs t) = Some (map (\<lambda>x. ?d + x) xs)"
    unfolding a faml_positions_shift(1) using assms(1) by simp
  moreover have "Max (set (map (\<lambda>x. ?d + x) xs)) = die_width div 2"
    using Max_shift[OF assms(2), of ?d] by simp
  moreover have "die_width div 2 = 1376665" by (simp add: die_width_def)
  ultimately show ?thesis using assms(2) by simp
qed

text \<open>The alignment of the example copy.\<close>

lemma faml_layout_positions:
  "find_faml_positions 2 faml_layout ''FaML'' 0 trans_unit = Some [130, 50]"
  by (simp add: numeral_2_eq_2 faml_layout_def mk_inst_def trans_unit_def trans_disp_def
      trans_mul_def fix_apply_def)

theorem faml_aligned_with_chip_edge_witness:
  "find_faml_positions 2 faml_layout ''FaML'' 0 trans_unit = Some [130, 50]
   \<and> find_faml_positions 2 faml_layout ''FaML'' 0 (align_copy [130, 50] (trans_disp 0 (- 250)))
       = Some [1376665, 1376585]
   \<and> Max (set [1376665, 1376585 :: int]) = 1376665"
proof -
  from faml_aligned_with_chip_edge[OF faml_layout_positions, of "trans_disp 0 (- 250)"]
  obtain ys where y: "find_faml_positions 2 faml_layout ''FaML'' 0 (align_copy [130, 50] (trans_disp 0 (- 250))) = Some ys"
    and m: "Max (set ys) = 1376665" by auto
  have "find_faml_positions 2 faml_layout ''FaML'' 0 (align_copy [130, 50] (trans_disp 0 (- 250)))
       = Some [1376665, 1376585]"
    by (simp add: numeral_2_eq_2 faml_layout_def mk_inst_def trans_disp_def
      trans_mul_def fix_apply_def align_copy_def die_width_def Let_def)
  with y m faml_layout_positions show ?thesis by simp
qed


section \<open>Properties of the array flattening\<close>









lemma flat_cell_filter:
  "array_count cl = 0 \<Longrightarrow> filter (\<lambda>i. \<not> is_regular_array i) (cell_insts cl) = cell_insts cl"
  by (auto simp: array_count_def filter_empty_conv filter_id_conv)



















section \<open>Properties of the re-parenting\<close>

lemma chain_move:
  "move_instance_up_hierarchy chain_layout chain_lookup (2, 0) 1
     = Inr ([ \<lparr> cell_name = ''chip'', cell_bbox = unit_box, cell_insts = [mk_inst 1 (trans_disp 500 0)] \<rparr>,
              \<lparr> cell_name = ''block'', cell_bbox = unit_box,
                cell_insts = [mk_inst 2 \<lparr> rot = R90, mirror = False, disp_x = 0, disp_y = 0 \<rparr>,
                              mk_inst 3 \<lparr> rot = R90, mirror = False, disp_x = 10, disp_y = 0 \<rparr>] \<rparr>,
              \<lparr> cell_name = ''group'', cell_bbox = unit_box, cell_insts = [] \<rparr>,
              \<lparr> cell_name = ''device'', cell_bbox = unit_box, cell_insts = [] \<rparr> ], (1, 1))"
  by code_simp

text \<open>
  C1: in the chain, the device is moved up one level, from the group into the block.
  Before the move its absolute transform is the rotation by 90 degrees with the
  displacement (500, 10). The transform assigned by the move is the product of the
  device's own transform and that of the instance of the group, in this order, and not
  the product in the other order, which keeps the position; after the move the
  absolute transform has the displacement (510, 0).
\<close>

theorem move_instance_changes_position:
  "absolute_trans 4 chain_layout 0 (2, 0)
     = Some \<lparr> rot = R90, mirror = False, disp_x = 500, disp_y = 10 \<rparr>
   \<and> (\<exists>L'. move_instance_up_hierarchy chain_layout chain_lookup (2, 0) 1 = Inr (L', (1, 1))
         \<and> inst_trans (get_inst L' (1, 1))
             = trans_mul (inst_trans (get_inst chain_layout (2, 0)))
                         (inst_trans (get_inst chain_layout (1, 0)))
         \<and> inst_trans (get_inst L' (1, 1))
             \<noteq> trans_mul (inst_trans (get_inst chain_layout (1, 0)))
                         (inst_trans (get_inst chain_layout (2, 0)))
         \<and> absolute_trans 4 L' 0 (1, 1)
             = Some \<lparr> rot = R90, mirror = False, disp_x = 510, disp_y = 0 \<rparr>)"
proof -
  let ?L' = "[ \<lparr> cell_name = ''chip'', cell_bbox = unit_box, cell_insts = [mk_inst 1 (trans_disp 500 0)] \<rparr>,
              \<lparr> cell_name = ''block'', cell_bbox = unit_box,
                cell_insts = [mk_inst 2 \<lparr> rot = R90, mirror = False, disp_x = 0, disp_y = 0 \<rparr>,
                              mk_inst 3 \<lparr> rot = R90, mirror = False, disp_x = 10, disp_y = 0 \<rparr>] \<rparr>,
              \<lparr> cell_name = ''group'', cell_bbox = unit_box, cell_insts = [] \<rparr>,
              \<lparr> cell_name = ''device'', cell_bbox = unit_box, cell_insts = [] \<rparr> ]"
  have a: "absolute_trans 4 chain_layout 0 (2, 0)
             = Some \<lparr> rot = R90, mirror = False, disp_x = 500, disp_y = 10 \<rparr>"
    by code_simp
  have own: "inst_trans (get_inst chain_layout (2, 0)) = trans_disp 10 0"
    by (simp add: chain_layout_def mk_inst_def get_inst_def)
  have par: "inst_trans (get_inst chain_layout (1, 0))
               = \<lparr> rot = R90, mirror = False, disp_x = 0, disp_y = 0 \<rparr>"
    by (simp add: chain_layout_def mk_inst_def get_inst_def)
  have new: "inst_trans (get_inst ?L' (1, 1))
               = \<lparr> rot = R90, mirror = False, disp_x = 10, disp_y = 0 \<rparr>"
    by (simp add: mk_inst_def get_inst_def)
  have b: "inst_trans (get_inst ?L' (1, 1))
             = trans_mul (inst_trans (get_inst chain_layout (2, 0)))
                         (inst_trans (get_inst chain_layout (1, 0)))"
    unfolding own par new by (simp add: trans_mul_def trans_disp_def fix_apply_def)
  have c: "inst_trans (get_inst ?L' (1, 1))
             \<noteq> trans_mul (inst_trans (get_inst chain_layout (1, 0)))
                         (inst_trans (get_inst chain_layout (2, 0)))"
    unfolding own par new by (simp add: trans_mul_def trans_disp_def fix_apply_def)
  have d: "absolute_trans 4 ?L' 0 (1, 1)
             = Some \<lparr> rot = R90, mirror = False, disp_x = 510, disp_y = 0 \<rparr>"
    by code_simp
  from chain_move b c d
  have "\<exists>L'. move_instance_up_hierarchy chain_layout chain_lookup (2, 0) 1 = Inr (L', (1, 1))
         \<and> inst_trans (get_inst L' (1, 1))
             = trans_mul (inst_trans (get_inst chain_layout (2, 0)))
                         (inst_trans (get_inst chain_layout (1, 0)))
         \<and> inst_trans (get_inst L' (1, 1))
             \<noteq> trans_mul (inst_trans (get_inst chain_layout (1, 0)))
                         (inst_trans (get_inst chain_layout (2, 0)))
         \<and> absolute_trans 4 L' 0 (1, 1)
             = Some \<lparr> rot = R90, mirror = False, disp_x = 510, disp_y = 0 \<rparr>"
    by (intro exI[of _ ?L'] conjI)
  with a show ?thesis by (rule conjI)
qed

end
